theory Spec2Isabelle
  imports Main "HOL-Library.Word"
begin

section \<open>JavaScript strings\<close>

text \<open>
  A JavaScript string is a sequence of UTF-16 code units. \<open>slice\<close>, \<open>trim\<close>,
  \<open>split\<close>, \<open>startsWith\<close> and the regular expressions of \<open>bot.js\<close> (written
  without the \<open>u\<close> flag) all work on code units, so the model keeps them:
  a string is a list of 16-bit words. \<open>js\<close> embeds an ASCII literal.
\<close>

type_synonym jsstring = "16 word list"

definition js :: "string \<Rightarrow> jsstring" where
  "js s = map (\<lambda>c. of_char c) s"

subsection \<open>\<open>encodeURIComponent\<close>\<close>

text \<open>
  The built-in follows ECMAScript's \<open>Encode\<close>: a code unit of the unescaped set
  (letters, digits and \<open>- _ . ! ~ * ' ( )\<close>) is copied; any other code point is written
  as the \<open>%XX\<close> escapes of its UTF-8 octets; an unpaired surrogate throws \<open>URIError\<close>,
  which is the value \<open>None\<close> here.
\<close>

definition uriUnescaped :: "16 word \<Rightarrow> bool" where
  "uriUnescaped c \<longleftrightarrow>
     (0x41 \<le> c \<and> c \<le> 0x5A) \<or> (0x61 \<le> c \<and> c \<le> 0x7A) \<or> (0x30 \<le> c \<and> c \<le> 0x39)
     \<or> c \<in> set [0x2D, 0x5F, 0x2E, 0x21, 0x7E, 0x2A, 0x27, 0x28, 0x29]"

definition hexDigit :: "nat \<Rightarrow> 16 word" where
  "hexDigit n = (if n < 10 then of_nat (48 + n) else of_nat (55 + n))"

definition percentOctet :: "nat \<Rightarrow> jsstring" where
  "percentOctet b = [0x25, hexDigit (b div 16), hexDigit (b mod 16)]"

definition utf8 :: "nat \<Rightarrow> nat list" where
  "utf8 cp =
     (if cp < 0x80 then [cp]
      else if cp < 0x800 then [0xC0 + cp div 0x40, 0x80 + cp mod 0x40]
      else if cp < 0x10000 then
        [0xE0 + cp div 0x1000, 0x80 + (cp div 0x40) mod 0x40, 0x80 + cp mod 0x40]
      else
        [0xF0 + cp div 0x40000, 0x80 + (cp div 0x1000) mod 0x40,
         0x80 + (cp div 0x40) mod 0x40, 0x80 + cp mod 0x40])"

definition escapeCodePoint :: "nat \<Rightarrow> jsstring" where
  "escapeCodePoint cp = concat (map percentOctet (utf8 cp))"

definition leadSurrogate :: "16 word \<Rightarrow> bool" where
  "leadSurrogate c \<longleftrightarrow> 0xD800 \<le> c \<and> c \<le> 0xDBFF"

definition trailSurrogate :: "16 word \<Rightarrow> bool" where
  "trailSurrogate c \<longleftrightarrow> 0xDC00 \<le> c \<and> c \<le> 0xDFFF"

fun encodeURIComponent :: "jsstring \<Rightarrow> jsstring option" where
  "encodeURIComponent [] = Some []"
| "encodeURIComponent (c # cs) =
     (if uriUnescaped c then map_option ((#) c) (encodeURIComponent cs)
      else if trailSurrogate c then None
      else if leadSurrogate c then
        (case cs of
           [] \<Rightarrow> None
         | d # ds \<Rightarrow>
             if trailSurrogate d then
               map_option
                 ((@) (escapeCodePoint
                        (0x10000 + (unat c - 0xD800) * 0x400 + (unat d - 0xDC00))))
                 (encodeURIComponent ds)
             else None)
      else map_option ((@) (escapeCodePoint (unat c))) (encodeURIComponent cs))"

subsection \<open>\<open>trim\<close>, \<open>startsWith\<close>, \<open>split\<close>\<close>

text \<open>
  \<open>String.prototype.trim\<close> removes ECMAScript's WhiteSpace and LineTerminator code
  units from both ends: TAB, LF, VT, FF, CR, SP, NBSP, U+1680, U+2000 to U+200A, U+2028,
  U+2029, U+202F, U+205F, U+3000 and U+FEFF.
\<close>

definition isWhiteSpace :: "16 word \<Rightarrow> bool" where
  "isWhiteSpace c \<longleftrightarrow>
     c \<in> set [0x09, 0x0A, 0x0B, 0x0C, 0x0D, 0x20, 0xA0, 0x1680, 0x2028, 0x2029,
              0x202F, 0x205F, 0x3000, 0xFEFF]
     \<or> (0x2000 \<le> c \<and> c \<le> 0x200A)"

definition trim :: "jsstring \<Rightarrow> jsstring" where
  "trim s = rev (dropWhile isWhiteSpace (rev (dropWhile isWhiteSpace s)))"

definition startsWith :: "jsstring \<Rightarrow> jsstring \<Rightarrow> bool" where
  "startsWith p s \<longleftrightarrow> take (length p) s = p"


subsection \<open>Values that may be missing, and template literals\<close>

text \<open>
  A property of a parsed JSON object that the code reads as a string is \<open>undefined\<close>
  (key absent), \<open>null\<close> or a string. \<open>truthy\<close> is JavaScript's ToBoolean,
  \<open>orElse\<close> is \<open>a || b\<close>, \<open>render\<close> is the text a template literal
  \<open>${...}\<close> inserts, and \<open>slice04\<close> is \<open>x?.slice(0, 4)\<close>.
\<close>

datatype field = Undefined | Null | Str jsstring

fun truthy :: "field \<Rightarrow> bool" where
  "truthy (Str s) = (s \<noteq> [])"
| "truthy _ = False"

definition orElse :: "field \<Rightarrow> field \<Rightarrow> field" where
  "orElse a b = (if truthy a then a else b)"

fun render :: "field \<Rightarrow> jsstring" where
  "render Undefined = js ''undefined''"
| "render Null = js ''null''"
| "render (Str s) = s"

fun slice04 :: "field \<Rightarrow> field" where
  "slice04 (Str s) = Str (take 4 s)"
| "slice04 _ = Undefined"

text \<open>
  \<open>${r.id}\<close> for an integer id (TMDB ids are integers far below \<open>2^53\<close>):
  the decimal digits, with a minus sign for a negative number.
\<close>

fun showNat :: "nat \<Rightarrow> jsstring" where
  "showNat n =
     (if n < 10 then [of_nat (48 + n)] else showNat (n div 10) @ [of_nat (48 + n mod 10)])"

declare showNat.simps [simp del]

definition showInt :: "int \<Rightarrow> jsstring" where
  "showInt i = (if i < 0 then 0x2D # showNat (nat (- i)) else showNat (nat i))"

section \<open>The fetch cache: \<open>fastApi\<close>\<close>

text \<open>
  \<open>CACHE\<close> is a \<open>Map\<close> from the request URL to \<open>{ time, data }\<close>. The model passes
  the map in and returns it updated. \<open>Date.now()\<close> is the argument \<open>now\<close>
  (milliseconds). \<open>axios.get(url, { timeout })\<close> is the environment: for a request it
  gives the milliseconds that pass while the call is awaited and either a response or
  \<open>None\<close> for a rejected promise (network error, timeout, status outside 2xx).
  The outcome records what the caller gets (\<open>Inl\<close> for a rejected promise), the map
  afterwards, the requests issued in order, and the clock when the call settles.
\<close>

definition CACHE_TTL :: int where
  "CACHE_TTL = 10 * 60 * 1000"

record 'd entry =
  time :: int
  data :: 'd

type_synonym 'd cache = "jsstring \<rightharpoonup> 'd entry"

datatype request = Get (target: jsstring) (timeout: nat)

datatype error = RequestFailed | URIError

type_synonym 'd network = "request \<Rightarrow> nat \<times> 'd option"

record 'd outcome =
  result :: "error + 'd"
  cache_after :: "'d cache"
  calls :: "request list"
  settled :: int

text \<open>Lines 15 to 19: a fresh entry is returned, a stale one is deleted.\<close>

definition cacheLookup :: "int \<Rightarrow> 'd cache \<Rightarrow> jsstring \<Rightarrow> 'd + 'd cache" where
  "cacheLookup now CACHE url =
     (case CACHE url of
        None \<Rightarrow> Inr CACHE
      | Some e \<Rightarrow> if now - time e < CACHE_TTL then Inl (data e) else Inr (CACHE(url := None)))"

text \<open>Lines 21 to 30: the primary request, and the proxy request in the \<open>catch\<close> block.\<close>

definition fetchThrough ::
  "jsstring \<Rightarrow> 'd network \<Rightarrow> int \<Rightarrow> 'd cache \<Rightarrow> jsstring \<Rightarrow> 'd outcome" where
  "fetchThrough PROXY_API_URL net now CACHE url =
     (case net (Get url 5000) of
        (t1, Some res) \<Rightarrow>
          \<lparr>result = Inr res, cache_after = CACHE(url \<mapsto> \<lparr>time = now, data = res\<rparr>),
           calls = [Get url 5000], settled = now + int t1\<rparr>
      | (t1, None) \<Rightarrow>
          (case encodeURIComponent url of
             None \<Rightarrow>
               \<lparr>result = Inl URIError, cache_after = CACHE,
                calls = [Get url 5000], settled = now + int t1\<rparr>
           | Some enc \<Rightarrow>
               (let proxyUrl = PROXY_API_URL @ enc in
                case net (Get proxyUrl 8000) of
                  (t2, Some res) \<Rightarrow>
                    \<lparr>result = Inr res,
                     cache_after = CACHE(url \<mapsto> \<lparr>time = now, data = res\<rparr>),
                     calls = [Get url 5000, Get proxyUrl 8000],
                     settled = now + int t1 + int t2\<rparr>
                | (t2, None) \<Rightarrow>
                    \<lparr>result = Inl RequestFailed, cache_after = CACHE,
                     calls = [Get url 5000, Get proxyUrl 8000],
                     settled = now + int t1 + int t2\<rparr>)))"

definition fastApi ::
  "jsstring \<Rightarrow> 'd network \<Rightarrow> int \<Rightarrow> 'd cache \<Rightarrow> jsstring \<Rightarrow> 'd outcome" where
  "fastApi PROXY_API_URL net now CACHE url =
     (case cacheLookup now CACHE url of
        Inl d \<Rightarrow> \<lparr>result = Inr d, cache_after = CACHE, calls = [], settled = now\<rparr>
      | Inr CACHE' \<Rightarrow> fetchThrough PROXY_API_URL net now CACHE' url)"

text \<open>What a caller at clock \<open>t\<close> is served from the map without any request.\<close>

definition served :: "int \<Rightarrow> 'd cache \<Rightarrow> jsstring \<Rightarrow> 'd option" where
  "served t CACHE url =
     (case cacheLookup t CACHE url of Inl d \<Rightarrow> Some d | Inr _ \<Rightarrow> None)"

section \<open>The query classifier\<close>

text \<open>
  The three regular expressions of \<open>bot.js\<close> are alternations of ASCII words with
  the flag \<open>i\<close> (and \<open>g\<close> for the one in \<open>cleanQuery\<close>). With \<open>i\<close> and
  without \<open>u\<close>, two code units match when their canonical forms are equal; a code
  unit outside ASCII never canonicalises into ASCII, so against an ASCII pattern
  character only the two cases of the same letter match. \<open>canonicalize\<close> is
  therefore the upper-casing of \<open>a\<close> to \<open>z\<close>.
\<close>

definition canonicalize :: "16 word \<Rightarrow> 16 word" where
  "canonicalize c = (if 0x61 \<le> c \<and> c \<le> 0x7A then c - 0x20 else c)"

text \<open>One alternative matched at the start of the input.\<close>

fun matchesLiteral :: "jsstring \<Rightarrow> jsstring \<Rightarrow> bool" where
  "matchesLiteral [] s = True"
| "matchesLiteral (p # ps) [] = False"
| "matchesLiteral (p # ps) (c # cs) =
     (canonicalize c = canonicalize p \<and> matchesLiteral ps cs)"

text \<open>The alternatives are tried from left to right; the result is the match's length.\<close>

fun matchAlternatives :: "jsstring list \<Rightarrow> jsstring \<Rightarrow> nat option" where
  "matchAlternatives [] s = None"
| "matchAlternatives (a # as) s =
     (if matchesLiteral a s then Some (length a) else matchAlternatives as s)"

text \<open>\<open>/a|b|c/i.test(s)\<close>: is there a match at some index, scanning from index 0.\<close>

fun regexTest :: "jsstring list \<Rightarrow> jsstring \<Rightarrow> bool" where
  "regexTest alts [] = (matchAlternatives alts [] \<noteq> None)"
| "regexTest alts (c # cs) =
     (matchAlternatives alts (c # cs) \<noteq> None \<or> regexTest alts cs)"

text \<open>
  \<open>s.replace(/a|b|c/gi, '')\<close>: scanning from the left, a match is dropped and the scan
  goes on after it; where nothing matches the code unit is kept. (An empty match
  keeps the code unit and moves on by one.)
\<close>

fun replaceAllEmpty :: "jsstring list \<Rightarrow> jsstring \<Rightarrow> jsstring" where
  "replaceAllEmpty alts [] = []"
| "replaceAllEmpty alts (c # cs) =
     (case matchAlternatives alts (c # cs) of
        None \<Rightarrow> c # replaceAllEmpty alts cs
      | Some 0 \<Rightarrow> c # replaceAllEmpty alts cs
      | Some (Suc k) \<Rightarrow> replaceAllEmpty alts (drop k cs))"

definition hasMovieKeyword :: "jsstring \<Rightarrow> bool" where
  "hasMovieKeyword text = regexTest [js ''movie'', js ''film''] text"

definition hasTvKeyword :: "jsstring \<Rightarrow> bool" where
  "hasTvKeyword text = regexTest [js ''tv'', js ''series'', js ''show''] text"

definition cleanQuery :: "jsstring \<Rightarrow> jsstring" where
  "cleanQuery text =
     trim (replaceAllEmpty
             [js ''movie'', js ''film'', js ''tv'', js ''series'', js ''show'',
              js ''link'', js ''watch'', js ''download''] text)"

text \<open>Lines 97 to 99: \<open>let endpoint = 'multi'\<close> and the two assignments that follow.\<close>

definition decideEndpoint :: "jsstring \<Rightarrow> jsstring" where
  "decideEndpoint rawText =
     (let endpoint = js ''multi'';
          endpoint = (if hasMovieKeyword rawText \<and> \<not> hasTvKeyword rawText
                      then js ''movie'' else endpoint);
          endpoint = (if hasTvKeyword rawText \<and> \<not> hasMovieKeyword rawText
                      then js ''tv'' else endpoint)
      in endpoint)"

section \<open>The search handler\<close>

text \<open>
  The part of a search response the handler reads: \<open>res.data?.results\<close> is absent
  (\<open>None\<close>) or an array of entries \<open>{ id, media_type, title, name, release_date,
  first_air_date }\<close>, every string property possibly missing.
\<close>

record result_entry =
  id_num :: int
  media_type :: field
  title :: field
  name :: field
  release_date :: field
  first_air_date :: field

datatype response = Response (results: "result_entry list option")

text \<open>
  An inline-keyboard button is \<open>{ text, callback_data }\<close> or \<open>{ text, url }\<close>. What
  the handler does is one of: nothing, one \<open>bot.sendMessage\<close> (its text, whether
  \<open>parse_mode: 'Markdown'\<close> is set, its \<open>inline_keyboard\<close> when there is one), or an
  exception leaving the handler. The chat id is the incoming message's and is left out.
\<close>

datatype button =
  CallbackButton jsstring jsstring
| UrlButton jsstring jsstring

datatype reply =
  NoReply
| SendMessage (body: jsstring) (markdown: bool) (inline_keyboard: "button list list option")
| Unhandled

text \<open>Lines 133 to 144, the function mapped over the entries: one row of one button.\<close>

definition resultButton :: "jsstring \<Rightarrow> result_entry \<Rightarrow> button list" where
  "resultButton endpoint r =
     (let type = orElse (media_type r) (Str endpoint);
          year = (if type = Str (js ''movie'') then slice04 (release_date r)
                  else slice04 (first_air_date r))
      in [CallbackButton
            ((if type = Str (js ''movie'') then [0xD83C, 0xDFAC] else [0xD83D, 0xDCFA])
             @ js '' '' @ render (orElse (title r) (name r))
             @ js '' ('' @ render (orElse year (Str (js ''N/A''))) @ js '')'')
            (js ''select_'' @ render type @ js ''_'' @ showInt (id_num r))])"

definition buttons :: "jsstring \<Rightarrow> result_entry list \<Rightarrow> button list list" where
  "buttons endpoint rs =
     map (resultButton endpoint)
       (take 10 (filter (\<lambda>r. media_type r \<noteq> Str (js ''person'')) rs))"

text \<open>Lines 113 to 127: the reply with the Google link.\<close>

definition noResults :: "jsstring \<Rightarrow> reply" where
  "noResults rawText =
     (case encodeURIComponent rawText of
        None \<Rightarrow> Unhandled
      | Some q \<Rightarrow>
          SendMessage
            ([0x274C] @ js '' *No results found*'' @ [0x0A, 0x0A] @ js ''Try Google ''
             @ [0xD83D, 0xDC47])
            True
            (Some [[UrlButton ([0xD83D, 0xDD0D] @ js '' Search on Google'')
                      (js ''https://www.google.com/search?q='' @ q)]]))"

text \<open>Lines 112 to 149: what is sent once \<open>fastApi\<close> has returned \<open>res\<close>.\<close>

definition searchReply :: "jsstring \<Rightarrow> jsstring \<Rightarrow> jsstring \<Rightarrow> response \<Rightarrow> reply" where
  "searchReply rawText query endpoint res =
     (case results res of
        None \<Rightarrow> noResults rawText
      | Some rs \<Rightarrow>
          if length rs = 0 then noResults rawText
          else SendMessage ([0xD83D, 0xDD0D] @ js '' Results for *'' @ query @ js ''*'') True
                 (Some (buttons endpoint rs)))"

definition searchUrl :: "jsstring \<Rightarrow> jsstring \<Rightarrow> jsstring \<Rightarrow> jsstring" where
  "searchUrl TMDB_API_KEY endpoint q =
     js ''https://api.themoviedb.org/3/search/'' @ endpoint @ js ''?query='' @ q
     @ js ''&api_key='' @ TMDB_API_KEY"

definition busy :: reply where
  "busy = SendMessage ([0x26A0, 0xFE0F] @ js '' TMDB busy, try again'') False None"

text \<open>
  The \<open>message\<close> handler, lines 85 to 150. \<open>msg.text\<close> is \<open>None\<close> for a message
  without text. The \<open>encodeURIComponent(query)\<close> of the request URL is evaluated inside
  the \<open>try\<close>, so its \<open>URIError\<close> ends in the same reply as a failed fetch.
\<close>

definition onMessage ::
  "jsstring \<Rightarrow> jsstring \<Rightarrow> response network \<Rightarrow> int \<Rightarrow> response cache \<Rightarrow> jsstring option
     \<Rightarrow> reply \<times> response cache" where
  "onMessage TMDB_API_KEY PROXY_API_URL net now CACHE msg_text =
     (case msg_text of
        None \<Rightarrow> (NoReply, CACHE)
      | Some t \<Rightarrow>
          if t = [] \<or> startsWith (js ''/'') t then (NoReply, CACHE)
          else
            (let rawText = trim t; query = cleanQuery rawText in
             if query = [] then
               (SendMessage ([0x274C] @ js '' Please enter a movie or TV name'') False None,
                CACHE)
             else
               (case encodeURIComponent query of
                  None \<Rightarrow> (busy, CACHE)
                | Some q \<Rightarrow>
                    (let out = fastApi PROXY_API_URL net now CACHE
                                 (searchUrl TMDB_API_KEY (decideEndpoint rawText) q) in
                     case result out of
                       Inl e \<Rightarrow> (busy, cache_after out)
                     | Inr res \<Rightarrow>
                         (searchReply rawText query (decideEndpoint rawText) res,
                          cache_after out)))))"

section \<open>The selection handler\<close>




section \<open>The specification's terms\<close>

text \<open>
  The definitions of this section follow the specification's wording, not the code;
  the theorems below relate them to the code.

  A text matches a keyword pattern when one of the pattern's words occurs in it, letter
  case ignored.
\<close>

definition sameIgnoringCase :: "jsstring \<Rightarrow> jsstring \<Rightarrow> bool" where
  "sameIgnoringCase a b \<longleftrightarrow> map canonicalize a = map canonicalize b"

definition occursIn :: "jsstring \<Rightarrow> jsstring \<Rightarrow> bool" where
  "occursIn w text \<longleftrightarrow> (\<exists>pre mid post. text = pre @ mid @ post \<and> sameIgnoringCase mid w)"

definition moviePattern :: "jsstring \<Rightarrow> bool" where
  "moviePattern text \<longleftrightarrow> occursIn (js ''movie'') text \<or> occursIn (js ''film'') text"

definition tvPattern :: "jsstring \<Rightarrow> bool" where
  "tvPattern text \<longleftrightarrow>
     occursIn (js ''tv'') text \<or> occursIn (js ''series'') text \<or> occursIn (js ''show'') text"

text \<open>
  Striking the keywords out of a text, from left to right: where a keyword starts it is
  removed whole, and a code unit is kept only where no keyword starts.
\<close>

definition cleanKeywords :: "jsstring list" where
  "cleanKeywords = [js ''movie'', js ''film'', js ''tv'', js ''series'', js ''show'',
                    js ''link'', js ''watch'', js ''download'']"

definition keywordAhead :: "jsstring \<Rightarrow> bool" where
  "keywordAhead s \<longleftrightarrow>
     (\<exists>k \<in> set cleanKeywords. \<exists>m rest. s = m @ rest \<and> sameIgnoringCase m k)"

inductive strikes :: "jsstring \<Rightarrow> jsstring \<Rightarrow> bool" where
  strikes_end: "strikes [] []"
| strikes_keyword:
    "k \<in> set cleanKeywords \<Longrightarrow> sameIgnoringCase m k \<Longrightarrow> strikes rest out
       \<Longrightarrow> strikes (m @ rest) out"
| strikes_keep:
    "\<not> keywordAhead (c # cs) \<Longrightarrow> strikes cs out \<Longrightarrow> strikes (c # cs) (c # out)"

text \<open>
  A result entry's media kind is its \<open>media_type\<close>, or the endpoint searched when the
  entry carries none. Its label is the kind's glyph, the title (the \<open>name\<close> when there
  is no \<open>title\<close>) and the year: the first four code units of the date of its kind
  (\<open>release_date\<close> for a movie, \<open>first_air_date\<close> otherwise), or \<open>N/A\<close>. The
  selection token is \<open>select_<kind>_<id>\<close>.
\<close>

definition mediaKind :: "jsstring \<Rightarrow> result_entry \<Rightarrow> jsstring" where
  "mediaKind endpoint r =
     (case media_type r of Str s \<Rightarrow> if s = [] then endpoint else s | _ \<Rightarrow> endpoint)"

definition glyph :: "jsstring \<Rightarrow> jsstring" where
  "glyph kind = (if kind = js ''movie'' then [0xD83C, 0xDFAC] else [0xD83D, 0xDCFA])"

definition displayTitle :: "result_entry \<Rightarrow> jsstring" where
  "displayTitle r =
     (case title r of
        Str s \<Rightarrow> if s = [] then render (name r) else s
      | _ \<Rightarrow> render (name r))"

definition displayYear :: "jsstring \<Rightarrow> result_entry \<Rightarrow> jsstring" where
  "displayYear kind r =
     (case (if kind = js ''movie'' then release_date r else first_air_date r) of
        Str d \<Rightarrow> if d = [] then js ''N/A'' else take 4 d
      | _ \<Rightarrow> js ''N/A'')"

definition entryLabel :: "jsstring \<Rightarrow> result_entry \<Rightarrow> jsstring" where
  "entryLabel endpoint r =
     glyph (mediaKind endpoint r) @ js '' '' @ displayTitle r
     @ js '' ('' @ displayYear (mediaKind endpoint r) r @ js '')''"

definition selectionToken :: "jsstring \<Rightarrow> jsstring \<Rightarrow> jsstring" where
  "selectionToken kind i = js ''select_'' @ kind @ js ''_'' @ i"

section \<open>Example inputs\<close>

text \<open>
  Three networks: one whose direct requests (the ones with the 5 second timeout) fail
  after 5 seconds while the proxy answers in 1.2 seconds, one where every request runs
  into its timeout, one where every request is answered in 30 milliseconds.
\<close>

definition primaryDown :: "nat network" where
  "primaryDown r = (if timeout r = 5000 then (5000, None) else (1200, Some 7))"

definition allDown :: "nat network" where
  "allDown r = (timeout r, None)"

definition allUp :: "nat network" where
  "allUp r = (30, Some 2)"

definition exampleUrl :: jsstring where
  "exampleUrl = js ''https://a.b/c?q=x y''"

definition exampleProxy :: jsstring where
  "exampleProxy = js ''https://proxy.example/?url=''"

definition theMatrix :: result_entry where
  "theMatrix = \<lparr>id_num = 603, media_type = Str (js ''movie''), title = Str (js ''The Matrix''),
                name = Undefined, release_date = Str (js ''1999-03-30''),
                first_air_date = Undefined\<rparr>"

definition actor :: result_entry where
  "actor = \<lparr>id_num = 6384, media_type = Str (js ''person''), title = Undefined,
            name = Str (js ''Keanu Reeves''), release_date = Undefined,
            first_air_date = Undefined\<rparr>"

definition peopleOnly :: "response network" where
  "peopleOnly r = (40, Some (Response (Some [actor])))"

section \<open>Properties of the fetch cache\<close>

lemma CACHE_TTL_ms: "CACHE_TTL = 600000"
  by (simp add: CACHE_TTL_def)

lemma cacheLookup_miss:
  "(\<forall>e. CACHE url = Some e \<longrightarrow> CACHE_TTL \<le> now - time e) \<Longrightarrow>
     cacheLookup now CACHE url = Inr (CACHE(url := None))"
  by (auto simp: cacheLookup_def split: option.splits)

lemma fastApi_miss:
  "(\<forall>e. CACHE url = Some e \<longrightarrow> CACHE_TTL \<le> now - time e) \<Longrightarrow>
     fastApi P net now CACHE url = fetchThrough P net now (CACHE(url := None)) url"
  by (simp add: fastApi_def cacheLookup_miss)


lemma served_new_entry:
  "served t (C(url \<mapsto> \<lparr>time = now, data = res\<rparr>)) url =
     (if t - now < CACHE_TTL then Some res else None)"
  by (simp add: served_def cacheLookup_def)

lemma fastApi_stores_clock:
  "calls (fastApi P net now CACHE url) \<noteq> [] \<Longrightarrow>
   result (fastApi P net now CACHE url) = Inr res \<Longrightarrow>
     cache_after (fastApi P net now CACHE url) url = Some \<lparr>time = now, data = res\<rparr>"
  by (auto simp: fastApi_def fetchThrough_def Let_def
      split: sum.splits prod.splits option.splits)

lemmas encode_eval = js_def uriUnescaped_def trailSurrogate_def leadSurrogate_def
  escapeCodePoint_def utf8_def percentOctet_def hexDigit_def

lemma exampleUrl_encoded:
  "encodeURIComponent exampleUrl = Some (js ''https%3A%2F%2Fa.b%2Fc%3Fq%3Dx%20y'')"
  by (simp add: exampleUrl_def encode_eval)

lemma surrogate_pair_encoded:
  "encodeURIComponent [0xD83C, 0xDFAC] = Some (js ''%F0%9F%8E%AC'')"
  by (simp add: encode_eval)

lemma lone_surrogate_throws: "encodeURIComponent [0xD83C] = None"
  by (simp add: encode_eval)

text \<open>
  C1: when the map holds an entry for the URL whose age \<open>now - time\<close> is below the
  ten minutes of the TTL, \<open>fastApi\<close> returns the entry's payload, issues no request
  (neither the primary nor the proxy one) and leaves the map as it was.
\<close>

theorem fastApi_fresh_entry:
  "CACHE url = Some e \<Longrightarrow> now - time e < 10 * 60 * 1000 \<Longrightarrow>
     result (fastApi PROXY_API_URL net now CACHE url) = Inr (data e)
     \<and> calls (fastApi PROXY_API_URL net now CACHE url) = []
     \<and> cache_after (fastApi PROXY_API_URL net now CACHE url) = CACHE"
  by (simp add: fastApi_def cacheLookup_def CACHE_TTL_def)

theorem fastApi_fresh_entry_witness:
  "[exampleUrl \<mapsto> \<lparr>time = 0, data = 7::nat\<rparr>] exampleUrl = Some \<lparr>time = 0, data = 7\<rparr>
   \<and> 599999 - time \<lparr>time = 0, data = 7::nat\<rparr> < 10 * 60 * 1000
   \<and> result (fastApi exampleProxy allDown 599999
               [exampleUrl \<mapsto> \<lparr>time = 0, data = 7\<rparr>] exampleUrl) = Inr 7
   \<and> calls (fastApi exampleProxy allDown 599999
              [exampleUrl \<mapsto> \<lparr>time = 0, data = 7\<rparr>] exampleUrl) = []"
  using fastApi_fresh_entry [where CACHE = "[exampleUrl \<mapsto> \<lparr>time = 0, data = 7::nat\<rparr>]"
      and url = exampleUrl and e = "\<lparr>time = 0, data = 7::nat\<rparr>" and now = 599999
      and PROXY_API_URL = exampleProxy and net = allDown]
  by simp

text \<open>
  C2: when no fresh entry stops the call and the primary request (to the URL, timeout
  5000 ms) fails, \<open>fastApi\<close> issues the primary request and then exactly one other
  request: to the proxy base followed by \<open>encodeURIComponent(url)\<close>, with timeout
  8000 ms. When that request succeeds, its response is returned and stored under the
  original URL; the map changes at no other key, so nothing is stored under the proxy
  URL. (\<open>encodeURIComponent\<close> is defined on the URL: it has no unpaired surrogate.)
\<close>

theorem fastApi_fallback:
  assumes miss: "\<forall>e. CACHE url = Some e \<longrightarrow> 10 * 60 * 1000 \<le> now - time e"
    and primary: "snd (net (Get url 5000)) = None"
    and enc: "encodeURIComponent url = Some enc"
  shows "calls (fastApi P net now CACHE url) = [Get url 5000, Get (P @ enc) 8000]
    \<and> (\<forall>res. snd (net (Get (P @ enc) 8000)) = Some res \<longrightarrow>
          result (fastApi P net now CACHE url) = Inr res
          \<and> cache_after (fastApi P net now CACHE url) =
              CACHE(url \<mapsto> \<lparr>time = now, data = res\<rparr>))"
proof -
  from miss have "\<forall>e. CACHE url = Some e \<longrightarrow> CACHE_TTL \<le> now - time e"
    by (simp add: CACHE_TTL_def)
  then have m: "fastApi P net now CACHE url = fetchThrough P net now (CACHE(url := None)) url"
    by (rule fastApi_miss)
  obtain t1 where p: "net (Get url 5000) = (t1, None)"
    using primary by (cases "net (Get url 5000)") simp
  obtain t2 r2 where f: "net (Get (P @ enc) 8000) = (t2, r2)"
    by (cases "net (Get (P @ enc) 8000)")
  show ?thesis
    by (cases r2) (simp_all add: m fetchThrough_def p enc f)
qed

theorem fastApi_fallback_witness:
  "calls (fastApi exampleProxy primaryDown 1000 Map.empty exampleUrl) =
     [Get (js ''https://a.b/c?q=x y'') 5000,
      Get (js ''https://proxy.example/?url=https%3A%2F%2Fa.b%2Fc%3Fq%3Dx%20y'') 8000]
   \<and> result (fastApi exampleProxy primaryDown 1000 Map.empty exampleUrl) = Inr 7
   \<and> cache_after (fastApi exampleProxy primaryDown 1000 Map.empty exampleUrl) =
       [exampleUrl \<mapsto> \<lparr>time = 1000, data = 7\<rparr>]"
proof -
  have miss: "\<forall>e. (Map.empty :: nat cache) exampleUrl = Some e
      \<longrightarrow> 10 * 60 * 1000 \<le> 1000 - time e"
    by simp
  have primary: "snd (primaryDown (Get exampleUrl 5000)) = None"
    by (simp add: primaryDown_def)
  have fb: "snd (primaryDown
      (Get (exampleProxy @ js ''https%3A%2F%2Fa.b%2Fc%3Fq%3Dx%20y'') 8000)) = Some 7"
    by (simp add: primaryDown_def)
  show ?thesis
    using fastApi_fallback [where CACHE = "Map.empty :: nat cache" and url = exampleUrl
        and now = 1000 and net = primaryDown and P = exampleProxy,
        OF miss primary exampleUrl_encoded] fb
    by (simp add: exampleProxy_def exampleUrl_def js_def)
qed



text \<open>
  C4: when the map holds an entry for the URL whose age is the TTL or more, the lookup
  deletes it, \<open>fastApi\<close> issues a request (the first one is the primary request), and
  when the call succeeds the map holds an entry for the URL stamped \<open>now\<close>, which is
  strictly later than the expired entry's stamp. When the call fails the entry stays
  deleted.
\<close>

theorem fastApi_stale_entry:
  assumes entry: "CACHE url = Some e"
    and stale: "10 * 60 * 1000 \<le> now - time e"
  shows "cacheLookup now CACHE url = Inr (CACHE(url := None))
    \<and> calls (fastApi P net now CACHE url) \<noteq> []
    \<and> hd (calls (fastApi P net now CACHE url)) = Get url 5000
    \<and> (\<forall>res. result (fastApi P net now CACHE url) = Inr res \<longrightarrow>
          cache_after (fastApi P net now CACHE url) url = Some \<lparr>time = now, data = res\<rparr>
          \<and> time e < now)
    \<and> (isl (result (fastApi P net now CACHE url)) \<longrightarrow>
          cache_after (fastApi P net now CACHE url) url = None)"
proof -
  from entry stale have m0: "\<forall>e. CACHE url = Some e \<longrightarrow> CACHE_TTL \<le> now - time e"
    by (simp add: CACHE_TTL_def)
  then have m: "fastApi P net now CACHE url = fetchThrough P net now (CACHE(url := None)) url"
    by (rule fastApi_miss)
  from stale have later: "time e < now" by simp
  have look: "cacheLookup now CACHE url = Inr (CACHE(url := None))"
    using m0 by (rule cacheLookup_miss)
  show ?thesis
    unfolding m using later look
    by (auto simp: fetchThrough_def Let_def split: prod.splits option.splits)
qed

theorem fastApi_stale_entry_witness:
  "calls (fastApi exampleProxy allUp 600000
            [exampleUrl \<mapsto> \<lparr>time = 0, data = 1\<rparr>] exampleUrl) \<noteq> []
   \<and> cache_after (fastApi exampleProxy allUp 600000
                    [exampleUrl \<mapsto> \<lparr>time = 0, data = 1\<rparr>] exampleUrl) exampleUrl =
       Some \<lparr>time = 600000, data = 2\<rparr>"
proof -
  have entry: "[exampleUrl \<mapsto> \<lparr>time = 0, data = 1::nat\<rparr>] exampleUrl =
      Some \<lparr>time = 0, data = 1\<rparr>"
    by simp
  have stale: "10 * 60 * 1000 \<le> 600000 - time \<lparr>time = 0, data = 1::nat\<rparr>"
    by simp
  have "result (fastApi exampleProxy allUp 600000
                  [exampleUrl \<mapsto> \<lparr>time = 0, data = 1\<rparr>] exampleUrl) = Inr 2"
    by (simp add: fastApi_def cacheLookup_def CACHE_TTL_def fetchThrough_def allUp_def)
  then show ?thesis
    using fastApi_stale_entry [where CACHE = "[exampleUrl \<mapsto> \<lparr>time = 0, data = 1::nat\<rparr>]"
        and url = exampleUrl and now = 600000 and net = allUp and P = exampleProxy,
        OF entry stale]
    by simp
qed

text \<open>
  C9: the stamp of an entry is the clock read on entry to \<open>fastApi\<close>, before any
  request: whenever a call that issued a request succeeds, the entry it leaves is
  stamped \<open>now\<close>. On the proxy path, the failed primary request having taken \<open>t1\<close>
  and the proxy request \<open>t2\<close> milliseconds, the call settles at \<open>now + t1 + t2\<close>
  with an entry stamped \<open>now\<close>: counted from the moment the call settles, the entry
  is served for \<open>TTL - (t1 + t2)\<close> milliseconds and no longer, which is strictly
  less than the TTL as soon as the two requests took any time.
\<close>

theorem fastApi_entry_time:
  assumes miss: "\<forall>e. CACHE url = Some e \<longrightarrow> 10 * 60 * 1000 \<le> now - time e"
    and primary: "net (Get url 5000) = (t1, None)"
    and enc: "encodeURIComponent url = Some enc"
    and fallback: "net (Get (P @ enc) 8000) = (t2, Some res)"
    and elapsed: "0 < t1 + t2"
  shows "(\<forall>net' C' u r. calls (fastApi P net' now C' u) \<noteq> []
             \<and> result (fastApi P net' now C' u) = Inr r \<longrightarrow>
           cache_after (fastApi P net' now C' u) u = Some \<lparr>time = now, data = r\<rparr>)
    \<and> cache_after (fastApi P net now CACHE url) url = Some \<lparr>time = now, data = res\<rparr>
    \<and> settled (fastApi P net now CACHE url) = now + int t1 + int t2
    \<and> (\<forall>t. served t (cache_after (fastApi P net now CACHE url)) url =
          (if t - settled (fastApi P net now CACHE url) < 10 * 60 * 1000 - int (t1 + t2)
           then Some res else None))
    \<and> 10 * 60 * 1000 - int (t1 + t2) < (10 * 60 * 1000 :: int)"
proof -
  from miss have "\<forall>e. CACHE url = Some e \<longrightarrow> CACHE_TTL \<le> now - time e"
    by (simp add: CACHE_TTL_def)
  then have m: "fastApi P net now CACHE url = fetchThrough P net now (CACHE(url := None)) url"
    by (rule fastApi_miss)
  have out: "fetchThrough P net now (CACHE(url := None)) url =
      \<lparr>result = Inr res, cache_after = CACHE(url \<mapsto> \<lparr>time = now, data = res\<rparr>),
       calls = [Get url 5000, Get (P @ enc) 8000], settled = now + int t1 + int t2\<rparr>"
    by (simp add: fetchThrough_def primary enc fallback)
  have "\<forall>net' C' u r. calls (fastApi P net' now C' u) \<noteq> []
             \<and> result (fastApi P net' now C' u) = Inr r \<longrightarrow>
           cache_after (fastApi P net' now C' u) u = Some \<lparr>time = now, data = r\<rparr>"
    by (auto simp: fastApi_stores_clock)
  moreover have "cache_after (fastApi P net now CACHE url) url = Some \<lparr>time = now, data = res\<rparr>
    \<and> settled (fastApi P net now CACHE url) = now + int t1 + int t2
    \<and> (\<forall>t. served t (cache_after (fastApi P net now CACHE url)) url =
          (if t - settled (fastApi P net now CACHE url) < 10 * 60 * 1000 - int (t1 + t2)
           then Some res else None))
    \<and> 10 * 60 * 1000 - int (t1 + t2) < (10 * 60 * 1000 :: int)"
    unfolding m out using elapsed
    by (auto simp: served_new_entry CACHE_TTL_def)
  ultimately show ?thesis by blast
qed

theorem fastApi_entry_time_witness:
  "cache_after (fastApi exampleProxy primaryDown 1000 Map.empty exampleUrl) exampleUrl =
     Some \<lparr>time = 1000, data = 7\<rparr>
   \<and> settled (fastApi exampleProxy primaryDown 1000 Map.empty exampleUrl) = 7200
   \<and> served 601000 (cache_after (fastApi exampleProxy primaryDown 1000 Map.empty exampleUrl))
        exampleUrl = None
   \<and> served 600999 (cache_after (fastApi exampleProxy primaryDown 1000 Map.empty exampleUrl))
        exampleUrl = Some 7"
proof -
  have miss: "\<forall>e. (Map.empty :: nat cache) exampleUrl = Some e
      \<longrightarrow> 10 * 60 * 1000 \<le> 1000 - time e"
    by simp
  have primary: "primaryDown (Get exampleUrl 5000) = (5000, None)"
    by (simp add: primaryDown_def)
  have fb: "primaryDown (Get (exampleProxy @ js ''https%3A%2F%2Fa.b%2Fc%3Fq%3Dx%20y'') 8000) =
      (1200, Some 7)"
    by (simp add: primaryDown_def)
  have el: "0 < (5000::nat) + 1200" by simp
  let ?X = "fastApi exampleProxy primaryDown 1000 Map.empty exampleUrl"
  note th = fastApi_entry_time [where CACHE = "Map.empty :: nat cache" and url = exampleUrl
      and now = 1000 and net = primaryDown and P = exampleProxy,
      OF miss primary exampleUrl_encoded fb el]
  from th have stamp: "cache_after ?X exampleUrl = Some \<lparr>time = 1000, data = 7\<rparr>"
    by blast
  from th have "settled ?X = 1000 + int 5000 + int 1200" by blast
  then have stop: "settled ?X = 7200" by simp
  from th have window: "\<And>t. served t (cache_after ?X) exampleUrl =
      (if t - settled ?X < 10 * 60 * 1000 - int (5000 + 1200) then Some 7 else None)"
    by blast
  show ?thesis
    using stamp stop window [of 601000] window [of 600999] by simp
qed

section \<open>Properties of the query classifier\<close>

subsection \<open>The regular expressions find the occurrences\<close>

lemma matchesLiteral_iff:
  "matchesLiteral p s \<longleftrightarrow> (\<exists>m rest. s = m @ rest \<and> sameIgnoringCase m p)"
proof (induction p s rule: matchesLiteral.induct)
  case (1 s)
  then show ?case by (simp add: sameIgnoringCase_def)
next
  case (2 p ps)
  then show ?case by (simp add: sameIgnoringCase_def)
next
  case (3 p ps c cs)
  show ?case
  proof
    assume "matchesLiteral (p # ps) (c # cs)"
    with 3 obtain m rest where
      "cs = m @ rest" "sameIgnoringCase m ps" "canonicalize c = canonicalize p"
      by auto
    then have "c # cs = (c # m) @ rest \<and> sameIgnoringCase (c # m) (p # ps)"
      by (simp add: sameIgnoringCase_def)
    then show "\<exists>m rest. c # cs = m @ rest \<and> sameIgnoringCase m (p # ps)" by blast
  next
    assume "\<exists>m rest. c # cs = m @ rest \<and> sameIgnoringCase m (p # ps)"
    then obtain m rest where mr: "c # cs = m @ rest" "sameIgnoringCase m (p # ps)" by blast
    then obtain m' where m': "m = c # m'" "cs = m' @ rest"
      by (cases m) (auto simp: sameIgnoringCase_def)
    with mr have "canonicalize c = canonicalize p" "sameIgnoringCase m' ps"
      by (auto simp: sameIgnoringCase_def)
    with m' 3 show "matchesLiteral (p # ps) (c # cs)" by auto
  qed
qed

lemma matchesLiteral_split:
  "matchesLiteral p s \<Longrightarrow> sameIgnoringCase (take (length p) s) p \<and> length p \<le> length s"
  by (induction p s rule: matchesLiteral.induct) (auto simp: sameIgnoringCase_def)

lemma matchAlternatives_None_iff:
  "matchAlternatives alts s = None \<longleftrightarrow> (\<forall>a \<in> set alts. \<not> matchesLiteral a s)"
  by (induction alts) auto

lemma matchAlternatives_Some:
  "matchAlternatives alts s = Some n \<Longrightarrow> \<exists>a \<in> set alts. matchesLiteral a s \<and> n = length a"
  by (induction alts) (auto split: if_splits)

lemma regexTest_iff:
  "regexTest alts s \<longleftrightarrow>
     (\<exists>a \<in> set alts. \<exists>pre post. s = pre @ post \<and> matchesLiteral a post)"
proof (induction s)
  case Nil
  then show ?case by (auto simp: matchAlternatives_None_iff)
next
  case (Cons c cs)
  show ?case
  proof
    assume "regexTest alts (c # cs)"
    then consider "matchAlternatives alts (c # cs) \<noteq> None" | "regexTest alts cs" by auto
    then show "\<exists>a \<in> set alts. \<exists>pre post. c # cs = pre @ post \<and> matchesLiteral a post"
    proof cases
      case 1
      then obtain a where "a \<in> set alts" "matchesLiteral a (c # cs)"
        by (auto simp: matchAlternatives_None_iff)
      then have "a \<in> set alts \<and> c # cs = [] @ (c # cs) \<and> matchesLiteral a (c # cs)"
        by simp
      then show ?thesis by blast
    next
      case 2
      with Cons obtain a pre post where
        "a \<in> set alts" "cs = pre @ post" "matchesLiteral a post"
        by blast
      then have "a \<in> set alts \<and> c # cs = (c # pre) @ post \<and> matchesLiteral a post"
        by simp
      then show ?thesis by blast
    qed
  next
    assume "\<exists>a \<in> set alts. \<exists>pre post. c # cs = pre @ post \<and> matchesLiteral a post"
    then obtain a pre post where
      h: "a \<in> set alts" "c # cs = pre @ post" "matchesLiteral a post"
      by blast
    show "regexTest alts (c # cs)"
    proof (cases pre)
      case Nil
      with h show ?thesis by (auto simp: matchAlternatives_None_iff)
    next
      case (Cons x pre')
      with h have "cs = pre' @ post" by simp
      with h Cons.IH show ?thesis by auto
    qed
  qed
qed

lemma regexTest_occursIn:
  "regexTest alts s \<longleftrightarrow> (\<exists>a \<in> set alts. occursIn a s)"
  unfolding regexTest_iff matchesLiteral_iff occursIn_def
  by (metis append.assoc)

lemma hasMovieKeyword_iff: "hasMovieKeyword s \<longleftrightarrow> moviePattern s"
  by (simp add: hasMovieKeyword_def moviePattern_def regexTest_occursIn)

lemma hasTvKeyword_iff: "hasTvKeyword s \<longleftrightarrow> tvPattern s"
  by (simp add: hasTvKeyword_def tvPattern_def regexTest_occursIn)

lemmas classifier_eval = hasMovieKeyword_def hasTvKeyword_def cleanQuery_def trim_def
  isWhiteSpace_def canonicalize_def js_def

text \<open>
  C5: a text in which a movie word (movie, film) occurs and no tv word (tv, series,
  show), letter case ignored, is sent to the endpoint \<open>movie\<close>; a text with a tv word
  and no movie word to \<open>tv\<close>; a text with both or with neither to \<open>multi\<close>.
\<close>

theorem endpoint_classifier:
  "(moviePattern s \<and> \<not> tvPattern s \<longrightarrow> decideEndpoint s = js ''movie'')
   \<and> (tvPattern s \<and> \<not> moviePattern s \<longrightarrow> decideEndpoint s = js ''tv'')
   \<and> ((moviePattern s \<and> tvPattern s) \<or> (\<not> moviePattern s \<and> \<not> tvPattern s)
        \<longrightarrow> decideEndpoint s = js ''multi'')"
  by (simp add: decideEndpoint_def hasMovieKeyword_iff hasTvKeyword_iff)

theorem endpoint_classifier_witness:
  "moviePattern (js ''rrr MOVIE'') \<and> \<not> tvPattern (js ''rrr MOVIE'')
   \<and> decideEndpoint (js ''rrr MOVIE'') = js ''movie''
   \<and> decideEndpoint (js ''dark tv'') = js ''tv''
   \<and> decideEndpoint (js ''squid'') = js ''multi''
   \<and> decideEndpoint (js ''tv movie'') = js ''multi''"
proof -
  have a: "moviePattern (js ''rrr MOVIE'') \<and> \<not> tvPattern (js ''rrr MOVIE'')"
    unfolding hasMovieKeyword_iff [symmetric] hasTvKeyword_iff [symmetric]
    by (simp add: classifier_eval)
  have b: "tvPattern (js ''dark tv'') \<and> \<not> moviePattern (js ''dark tv'')"
    unfolding hasMovieKeyword_iff [symmetric] hasTvKeyword_iff [symmetric]
    by (simp add: classifier_eval)
  have c: "\<not> moviePattern (js ''squid'') \<and> \<not> tvPattern (js ''squid'')"
    unfolding hasMovieKeyword_iff [symmetric] hasTvKeyword_iff [symmetric]
    by (simp add: classifier_eval)
  have d: "moviePattern (js ''tv movie'') \<and> tvPattern (js ''tv movie'')"
    unfolding hasMovieKeyword_iff [symmetric] hasTvKeyword_iff [symmetric]
    by (simp add: classifier_eval)
  show ?thesis
    using endpoint_classifier [of "js ''rrr MOVIE''"] endpoint_classifier [of "js ''dark tv''"]
      endpoint_classifier [of "js ''squid''"] endpoint_classifier [of "js ''tv movie''"]
      a b c d
    by blast
qed

subsection \<open>Cleaning the query\<close>

lemma cleanQuery_keywords: "cleanQuery s = trim (replaceAllEmpty cleanKeywords s)"
  by (simp add: cleanQuery_def cleanKeywords_def)

lemma keywordAhead_iff:
  "keywordAhead s \<longleftrightarrow> matchAlternatives cleanKeywords s \<noteq> None"
  by (auto simp: keywordAhead_def matchAlternatives_None_iff matchesLiteral_iff)

lemma cleanKeywords_nonempty: "k \<in> set cleanKeywords \<Longrightarrow> k \<noteq> []"
  by (auto simp: cleanKeywords_def js_def)

lemma cleanKeywords_length: "k \<in> set cleanKeywords \<Longrightarrow> 2 \<le> length k"
  by (auto simp: cleanKeywords_def js_def)

text \<open>No keyword begins like another one, so at most one matches at a position.\<close>

lemma cleanKeywords_distinct_start:
  "a \<in> set cleanKeywords \<Longrightarrow> k \<in> set cleanKeywords \<Longrightarrow>
     map canonicalize (take 2 a) = map canonicalize (take 2 k) \<Longrightarrow> a = k"
  by (auto simp: cleanKeywords_def js_def canonicalize_def)

lemma matchesLiteral_take2:
  assumes "matchesLiteral a s" and "2 \<le> length a"
  shows "map canonicalize (take 2 s) = map canonicalize (take 2 a)"
proof -
  from assms(1) have "map canonicalize (take (length a) s) = map canonicalize a"
    using matchesLiteral_split by (simp add: sameIgnoringCase_def)
  then have "take 2 (map canonicalize (take (length a) s)) = take 2 (map canonicalize a)"
    by simp
  with assms(2) show ?thesis by (simp add: take_map min_def)
qed

lemma matchAlternatives_keyword:
  assumes "k \<in> set cleanKeywords" and "matchesLiteral k s"
  shows "matchAlternatives cleanKeywords s = Some (length k)"
proof (cases "matchAlternatives cleanKeywords s")
  case None
  with assms show ?thesis by (simp add: matchAlternatives_None_iff)
next
  case (Some n)
  then obtain a where a: "a \<in> set cleanKeywords" "matchesLiteral a s" "n = length a"
    using matchAlternatives_Some by blast
  have "map canonicalize (take 2 a) = map canonicalize (take 2 k)"
    using matchesLiteral_take2 [OF a(2) cleanKeywords_length [OF a(1)]]
      matchesLiteral_take2 [OF assms(2) cleanKeywords_length [OF assms(1)]] by simp
  with a(1) assms(1) have "a = k" by (rule cleanKeywords_distinct_start)
  with Some a(3) show ?thesis by simp
qed

lemma replaceAllEmpty_strikes: "strikes s (replaceAllEmpty cleanKeywords s)"
proof (induction cleanKeywords s rule: replaceAllEmpty.induct)
  case 1
  show ?case by (simp add: strikes_end)
next
  case (2 c cs)
  show ?case
  proof (cases "matchAlternatives cleanKeywords (c # cs)")
    case None
    then have "\<not> keywordAhead (c # cs)" by (simp add: keywordAhead_iff)
    with None 2(1) show ?thesis by (simp add: strikes_keep)
  next
    case (Some n)
    then obtain k where k: "k \<in> set cleanKeywords" "matchesLiteral k (c # cs)" "n = length k"
      using matchAlternatives_Some by blast
    from k(1) have "k \<noteq> []" by (rule cleanKeywords_nonempty)
    with k(3) have "n \<noteq> 0" by simp
    then obtain j where j: "n = Suc j" using not0_implies_Suc by blast
    from k have same: "sameIgnoringCase (take n (c # cs)) k"
      using matchesLiteral_split by blast
    have "strikes (drop j cs) (replaceAllEmpty cleanKeywords (drop j cs))"
      using 2(3) Some j by simp
    with k(1) same have
      "strikes (take n (c # cs) @ drop j cs) (replaceAllEmpty cleanKeywords (drop j cs))"
      by (rule strikes_keyword)
    moreover have "take n (c # cs) @ drop j cs = c # cs"
      using j by simp
    ultimately show ?thesis using Some j by simp
  qed
qed

lemma strikes_unique: "strikes s out \<Longrightarrow> out = replaceAllEmpty cleanKeywords s"
proof (induction rule: strikes.induct)
  case strikes_end
  show ?case by simp
next
  case (strikes_keyword k m rest out)
  from strikes_keyword(1) have "k \<noteq> []" by (rule cleanKeywords_nonempty)
  with strikes_keyword(2) obtain c m' where m: "m = c # m'"
    by (cases m) (auto simp: sameIgnoringCase_def)
  from strikes_keyword(2) have len: "length m = length k"
    by (auto simp: sameIgnoringCase_def dest: map_eq_imp_length_eq)
  have "matchesLiteral k (m @ rest)"
    using strikes_keyword(2) by (auto simp: matchesLiteral_iff)
  with strikes_keyword(1) have "matchAlternatives cleanKeywords (m @ rest) = Some (length m)"
    by (simp add: matchAlternatives_keyword len)
  then show ?case using m strikes_keyword.IH by simp
next
  case (strikes_keep c cs out)
  then show ?case by (simp add: keywordAhead_iff)
qed

lemma trim_parts:
  "\<exists>l r. s = l @ trim s @ r \<and> list_all isWhiteSpace l \<and> list_all isWhiteSpace r"
proof -
  let ?d = "dropWhile isWhiteSpace s"
  have "s = takeWhile isWhiteSpace s @ ?d" by simp
  moreover have "rev ?d = takeWhile isWhiteSpace (rev ?d) @ dropWhile isWhiteSpace (rev ?d)"
    by simp
  then have "?d = trim s @ rev (takeWhile isWhiteSpace (rev ?d))"
    unfolding trim_def by (metis rev_append rev_rev_ident)
  ultimately have "s = takeWhile isWhiteSpace s @ trim s @ rev (takeWhile isWhiteSpace (rev ?d))"
    by simp
  moreover have "list_all isWhiteSpace (takeWhile isWhiteSpace s)"
    by (simp add: list_all_iff) (meson set_takeWhileD)
  moreover have "list_all isWhiteSpace (rev (takeWhile isWhiteSpace (rev ?d)))"
    by (simp add: list_all_iff) (meson set_takeWhileD)
  ultimately show ?thesis by blast
qed

lemma trim_ends:
  assumes "trim s \<noteq> []"
  shows "\<not> isWhiteSpace (hd (trim s)) \<and> \<not> isWhiteSpace (last (trim s))"
proof -
  let ?d = "dropWhile isWhiteSpace s"
  let ?e = "dropWhile isWhiteSpace (rev ?d)"
  from assms have e: "?e \<noteq> []" by (simp add: trim_def)
  then have "\<not> isWhiteSpace (hd ?e)" by (rule hd_dropWhile)
  then have l: "\<not> isWhiteSpace (last (trim s))"
    using e by (simp add: trim_def last_rev)
  have d: "?d \<noteq> []"
    using e by (metis dropWhile.simps(1) rev.simps(1))
  then have nd: "\<not> isWhiteSpace (hd ?d)" by (rule hd_dropWhile)
  have "rev ?d = takeWhile isWhiteSpace (rev ?d) @ ?e" by simp
  then have "?d = trim s @ rev (takeWhile isWhiteSpace (rev ?d))"
    unfolding trim_def by (metis rev_append rev_rev_ident)
  with assms have "hd ?d = hd (trim s)" by (metis hd_append2)
  with nd l show ?thesis by simp
qed

text \<open>
  C6, as the code has it: the cleaned query is the text with the keywords struck out
  (every case-insensitive occurrence met in one pass from the left) and then
  whitespace removed from the two ends only. Whitespace inside is kept as it is: the
  text with the keywords struck out is the cleaned query between two runs of
  whitespace, and the cleaned query neither starts nor ends with whitespace. So
  \<open>watch breaking bad show\<close> cleans to \<open>breaking bad\<close>, and \<open>breaking show bad\<close>
  to \<open>breaking\<close>, two spaces, \<open>bad\<close>.
\<close>

theorem cleanQuery_ends_only:
  "(\<exists>mid. strikes s mid)
   \<and> (\<forall>mid. strikes s mid \<longrightarrow>
          cleanQuery s = trim mid
          \<and> (\<exists>l r. mid = l @ cleanQuery s @ r
                 \<and> list_all isWhiteSpace l \<and> list_all isWhiteSpace r))
   \<and> (cleanQuery s = [] \<or>
        (\<not> isWhiteSpace (hd (cleanQuery s)) \<and> \<not> isWhiteSpace (last (cleanQuery s))))
   \<and> cleanQuery (js ''watch breaking bad show'') = js ''breaking bad''
   \<and> cleanQuery (js ''breaking show bad'') = js ''breaking  bad''"
proof -
  have "\<exists>mid. strikes s mid"
    using replaceAllEmpty_strikes by blast
  moreover have "\<forall>mid. strikes s mid \<longrightarrow>
          cleanQuery s = trim mid
          \<and> (\<exists>l r. mid = l @ cleanQuery s @ r
                 \<and> list_all isWhiteSpace l \<and> list_all isWhiteSpace r)"
  proof (intro allI impI)
    fix mid
    assume "strikes s mid"
    then have "mid = replaceAllEmpty cleanKeywords s" by (rule strikes_unique)
    then have "cleanQuery s = trim mid" by (simp add: cleanQuery_keywords)
    then show "cleanQuery s = trim mid
          \<and> (\<exists>l r. mid = l @ cleanQuery s @ r
                 \<and> list_all isWhiteSpace l \<and> list_all isWhiteSpace r)"
      using trim_parts [of mid] by simp
  qed
  moreover have "cleanQuery s = [] \<or>
        (\<not> isWhiteSpace (hd (cleanQuery s)) \<and> \<not> isWhiteSpace (last (cleanQuery s)))"
    unfolding cleanQuery_keywords using trim_ends by blast
  moreover have "cleanQuery (js ''watch breaking bad show'') = js ''breaking bad''"
    by (simp add: classifier_eval)
  moreover have "cleanQuery (js ''breaking show bad'') = js ''breaking  bad''"
    by (simp add: classifier_eval)
  ultimately show ?thesis by blast
qed

theorem cleanQuery_ends_only_witness:
  "strikes (js ''breaking show bad'') (js ''breaking  bad'')
   \<and> cleanQuery (js ''breaking show bad'') = trim (js ''breaking  bad'')
   \<and> cleanQuery (js ''breaking show bad'') \<noteq> []
   \<and> \<not> isWhiteSpace (hd (cleanQuery (js ''breaking show bad'')))
   \<and> \<not> isWhiteSpace (last (cleanQuery (js ''breaking show bad'')))"
proof -
  have "replaceAllEmpty cleanKeywords (js ''breaking show bad'') = js ''breaking  bad''"
    by (simp add: cleanKeywords_def canonicalize_def js_def)
  then have st: "strikes (js ''breaking show bad'') (js ''breaking  bad'')"
    using replaceAllEmpty_strikes [of "js ''breaking show bad''"] by simp
  have ne: "cleanQuery (js ''breaking show bad'') \<noteq> []"
    by (simp add: classifier_eval)
  show ?thesis
    using cleanQuery_ends_only [of "js ''breaking show bad''"] st ne by blast
qed

text \<open>
  The pass is a single one: striking \<open>film\<close> out of \<open>mofilmvie\<close> leaves
  \<open>movie\<close>, which is not looked at again.
\<close>

lemma cleanQuery_single_pass: "cleanQuery (js ''mofilmvie'') = js ''movie''"
  by (simp add: classifier_eval)

text \<open>
  C6 as it is stated fails: the keyword \<open>show\<close> between two words leaves both its
  neighbouring spaces, so \<open>breaking show bad\<close> does not clean to \<open>breaking bad\<close>.
\<close>

theorem cleanQuery_interior_whitespace:
  "cleanQuery (js ''breaking show bad'') = js ''breaking  bad''
   \<and> cleanQuery (js ''breaking show bad'') \<noteq> js ''breaking bad''"
  by (simp add: classifier_eval)

section \<open>Properties of the handlers\<close>

subsection \<open>The buttons of a result list\<close>

lemma kind_mediaKind:
  "orElse (media_type r) (Str endpoint) = Str (mediaKind endpoint r)"
  by (cases "media_type r") (auto simp: orElse_def mediaKind_def)

lemma render_title: "render (orElse (title r) (name r)) = displayTitle r"
  by (cases "title r") (auto simp: orElse_def displayTitle_def)

lemma render_year:
  "render (orElse (slice04 d) (Str (js ''N/A''))) =
     (case d of Str s \<Rightarrow> if s = [] then js ''N/A'' else take 4 s | _ \<Rightarrow> js ''N/A'')"
  by (cases d) (auto simp: orElse_def)

lemma resultButton_label:
  "resultButton endpoint r =
     [CallbackButton (entryLabel endpoint r)
        (selectionToken (mediaKind endpoint r) (showInt (id_num r)))]"
  by (simp add: resultButton_def kind_mediaKind render_title render_year entryLabel_def
      glyph_def displayYear_def selectionToken_def Let_def)

lemma buttons_labels:
  "buttons endpoint rs =
     map (\<lambda>r. [CallbackButton (entryLabel endpoint r)
                  (selectionToken (mediaKind endpoint r) (showInt (id_num r)))])
       (take 10 (filter (\<lambda>r. media_type r \<noteq> Str (js ''person'')) rs))"
  by (simp add: buttons_def resultButton_label)

lemmas handler_eval = buttons_def resultButton_def orElse_def theMatrix_def actor_def
  showInt_def showNat.simps js_def

text \<open>
  C8: for a result list that is not empty, the handler sends the results message, and
  its keyboard is made of the entries whose \<open>media_type\<close> is not \<open>person\<close>, in the
  order received, the first ten of them at most, one button each; a button's text is
  the kind's glyph, the title and, in brackets, the first four code units of the date,
  or \<open>N/A\<close> when the entry has no date.
\<close>

theorem selection_list:
  assumes "rs \<noteq> []"
  shows "searchReply rawText query endpoint (Response (Some rs)) =
      SendMessage ([0xD83D, 0xDD0D] @ js '' Results for *'' @ query @ js ''*'') True
        (Some (buttons endpoint rs))
    \<and> buttons endpoint rs =
        map (\<lambda>r. [CallbackButton (entryLabel endpoint r)
                     (selectionToken (mediaKind endpoint r) (showInt (id_num r)))])
          (take 10 (filter (\<lambda>r. media_type r \<noteq> Str (js ''person'')) rs))
    \<and> length (buttons endpoint rs) \<le> 10"
  using assms by (simp add: searchReply_def buttons_labels)

theorem selection_list_witness:
  "[actor, theMatrix] \<noteq> []
   \<and> searchReply (js ''matrix'') (js ''matrix'') (js ''multi'')
        (Response (Some [actor, theMatrix])) =
      SendMessage ([0xD83D, 0xDD0D] @ js '' Results for *matrix*'') True
        (Some [[CallbackButton ([0xD83C, 0xDFAC] @ js '' The Matrix (1999)'')
                  (js ''select_movie_603'')]])"
proof -
  have ne: "[actor, theMatrix] \<noteq> []" by simp
  have "buttons (js ''multi'') [actor, theMatrix] =
      [[CallbackButton ([0xD83C, 0xDFAC] @ js '' The Matrix (1999)'') (js ''select_movie_603'')]]"
    by (simp add: handler_eval)
  then show ?thesis
    using selection_list [OF ne, of "js ''matrix''" "js ''matrix''" "js ''multi''"]
    by (simp add: js_def)
qed

subsection \<open>Selection tokens\<close>









subsection \<open>Results that are all people\<close>

text \<open>
  C10: when the search response carries a results array that is not empty and every
  entry in it has the \<open>media_type\<close> person, the message handler sends the
  \<open>Results for\<close> message with an empty inline keyboard, and not the reply with the
  Google link.
\<close>

theorem all_person_results:
  assumes msg: "t \<noteq> []" "\<not> startsWith (js ''/'') t"
    and query: "cleanQuery (trim t) \<noteq> []" "encodeURIComponent (cleanQuery (trim t)) = Some q"
    and fetched: "result (fastApi PROXY_API_URL net now CACHE
                    (searchUrl TMDB_API_KEY (decideEndpoint (trim t)) q)) =
                  Inr (Response (Some rs))"
    and nonempty: "rs \<noteq> []"
    and people: "\<forall>r \<in> set rs. media_type r = Str (js ''person'')"
  shows "fst (onMessage TMDB_API_KEY PROXY_API_URL net now CACHE (Some t)) =
      SendMessage ([0xD83D, 0xDD0D] @ js '' Results for *'' @ cleanQuery (trim t) @ js ''*'')
        True (Some [])
    \<and> fst (onMessage TMDB_API_KEY PROXY_API_URL net now CACHE (Some t)) \<noteq> noResults (trim t)"
proof -
  from people have "filter (\<lambda>r. media_type r \<noteq> Str (js ''person'')) rs = []"
    by (simp add: filter_empty_conv)
  then have "buttons (decideEndpoint (trim t)) rs = []" by (simp add: buttons_def)
  with nonempty have reply:
    "searchReply (trim t) (cleanQuery (trim t)) (decideEndpoint (trim t))
       (Response (Some rs)) =
     SendMessage ([0xD83D, 0xDD0D] @ js '' Results for *'' @ cleanQuery (trim t) @ js ''*'')
       True (Some [])"
    by (simp add: searchReply_def)
  have "fst (onMessage TMDB_API_KEY PROXY_API_URL net now CACHE (Some t)) =
      searchReply (trim t) (cleanQuery (trim t)) (decideEndpoint (trim t))
        (Response (Some rs))"
    using msg query fetched by (simp add: onMessage_def Let_def)
  with reply show ?thesis
    by (auto simp: noResults_def split: option.splits)
qed

theorem all_person_results_witness:
  "fst (onMessage (js ''KEY'') exampleProxy peopleOnly 1000 Map.empty (Some (js ''keanu''))) =
      SendMessage ([0xD83D, 0xDD0D] @ js '' Results for *keanu*'') True (Some [])"
proof -
  have tr: "trim (js ''keanu'') = js ''keanu''"
    by (simp add: trim_def isWhiteSpace_def js_def)
  have cq: "cleanQuery (js ''keanu'') = js ''keanu''"
    by (simp add: classifier_eval)
  have msg: "js ''keanu'' \<noteq> []" "\<not> startsWith (js ''/'') (js ''keanu'')"
    by (simp_all add: startsWith_def js_def)
  have q1: "cleanQuery (trim (js ''keanu'')) \<noteq> []"
    unfolding tr cq by (simp add: js_def)
  have q2: "encodeURIComponent (cleanQuery (trim (js ''keanu''))) = Some (js ''keanu'')"
    unfolding tr cq by (simp add: encode_eval)
  have fetched: "result (fastApi exampleProxy peopleOnly 1000 Map.empty
        (searchUrl (js ''KEY'') (decideEndpoint (trim (js ''keanu''))) (js ''keanu''))) =
      Inr (Response (Some [actor]))"
    by (simp add: fastApi_def cacheLookup_def fetchThrough_def peopleOnly_def)
  have ne: "[actor] \<noteq> []" by simp
  have people: "\<forall>r \<in> set [actor]. media_type r = Str (js ''person'')"
    by (simp add: actor_def)
  show ?thesis
    using all_person_results [where t = "js ''keanu''" and q = "js ''keanu''" and rs = "[actor]"
        and net = peopleOnly and now = 1000 and CACHE = Map.empty
        and PROXY_API_URL = exampleProxy and TMDB_API_KEY = "js ''KEY''",
        OF msg q1 q2 fetched ne people, unfolded tr cq]
    by (simp add: js_def)
qed

end
